theory Spec2Isabelle
  imports Complex_Main
begin

section \<open>The MeghaGaah dashboard (src/src/App.jsx)\<close>

text \<open>
  The repository is one React component file. This theory embeds the parts of it that
  carry behaviour: the sensor synthesizer \<open>generateSensorsFromPositions\<close>, the static
  anchor table \<open>manualSensorPositions\<close>, the region table \<open>mountains\<close>, the two
  \<open>useState\<close> cells of \<open>MeghaGaahDashboard\<close> with their event handlers, one render of
  the component, and the camera logger's \<open>handleChange\<close>.

  JavaScript numbers are modelled by exact numbers: integers (ids, anchor coordinates)
  by \<open>int\<close>, the results of \<open>Math.random()\<close> and the camera coordinates by \<open>real\<close>.
  The ambient random source is made explicit as a stream of draws that every call of
  \<open>Math.random()\<close> consumes from the front.
\<close>

subsection \<open>The random source\<close>

type_synonym random_source = "nat \<Rightarrow> real"

text \<open>\<open>Math.random()\<close>: returns the next draw and the source advanced by one.\<close>

definition Math_random :: "random_source \<Rightarrow> real \<times> random_source" where
  "Math_random g = (g 0, \<lambda>n. g (Suc n))"

text \<open>The contract of \<open>Math.random()\<close>: every draw lies in \<open>[0, 1)\<close>.\<close>

definition unit_draws :: "random_source \<Rightarrow> bool" where
  "unit_draws g = (\<forall>n. 0 \<le> g n \<and> g n < 1)"

subsection \<open>Number.prototype.toFixed\<close>

text \<open>
  \<open>x.toFixed(f)\<close> as ECMAScript defines it on the mathematical value of \<open>x\<close>: the sign,
  then the integer \<open>n\<close> nearest to \<open>x * 10^f\<close> (the larger one on a tie) written in
  decimal, padded with zeros to at least \<open>f + 1\<close> digits, with a point before the last
  \<open>f\<close> digits. From magnitude \<open>10^21\<close> on, JavaScript prints the number in its general
  (exponent) notation instead; that notation depends on the binary representation and
  is taken as the parameter \<open>E\<close>. The program calls \<open>toFixed\<close> with 0, 1 and 2
  digits only (JavaScript rejects more than 100).
\<close>

definition digit :: "nat \<Rightarrow> char" where
  "digit d = ''0123456789'' ! d"

fun decimal :: "nat \<Rightarrow> string" where
  "decimal n = (if n < 10 then [digit n] else decimal (n div 10) @ [digit (n mod 10)])"

declare decimal.simps [simp del]

definition toFixed :: "(real \<Rightarrow> string) \<Rightarrow> real \<Rightarrow> nat \<Rightarrow> string" where
  "toFixed E x f =
     (let s = (if x < 0 then ''-'' else '''');
          x = (if x < 0 then - x else x)
      in if 10 ^ 21 \<le> x then s @ E x
         else
           let n = nat \<lfloor>x * 10 ^ f + 1 / 2\<rfloor>;
               m = (if n = 0 then ''0'' else decimal n);
               m = (if f \<noteq> 0
                    then let k = length m;
                             m = (if k \<le> f then replicate (f + 1 - k) (CHR ''0'') @ m else m);
                             k = (if k \<le> f then f + 1 else k)
                         in take (k - f) m @ ''.'' @ drop (k - f) m
                    else m)
           in s @ m)"

subsection \<open>Anchors and sensors\<close>

text \<open>An entry of \<open>manualSensorPositions\<close>: \<open>{ x, y, z, label }\<close>.\<close>

record anchor =
  anchor_x :: int
  anchor_y :: int
  anchor_z :: int
  anchor_label :: string

text \<open>The object literal that the callback of \<open>generateSensorsFromPositions\<close> returns.\<close>

record sensor =
  sensor_id :: int
  sensor_label :: string
  sensor_pos :: "int list"
  temp :: string
  hum :: string
  wind :: string
  moisture :: string
  risk :: string

text \<open>
  The unit suffixes of the template literals. The degree sign (U+00B0) and the
  superscript three (U+00B3) are single code units below 256.
\<close>

definition degC :: string where
  "degC = [CHR 0xB0, CHR ''C'']"

definition gPerM3 :: string where
  "gPerM3 = '' g/m'' @ [CHR 0xB3]"

text \<open>
  The arrow function \<open>(pos, i) => ({...})\<close>. The properties are evaluated in the order
  written, so the draws are consumed in the order temp, hum, wind, moisture, risk; the
  second draw of \<open>risk\<close> happens only when the first comparison fails.
\<close>

definition sensorFromPosition ::
  "(real \<Rightarrow> string) \<Rightarrow> int \<Rightarrow> anchor \<Rightarrow> nat \<Rightarrow> random_source \<Rightarrow> sensor \<times> random_source" where
  "sensorFromPosition E mountainId pos i g0 =
     (let (r1, g1) = Math_random g0;
          (r2, g2) = Math_random g1;
          (r3, g3) = Math_random g2;
          (r4, g4) = Math_random g3;
          (r5, g5) = Math_random g4;
          (rk, g6) = (if r5 > 7 / 10 then (''HIGH'', g5)
                      else let (r6, g6) = Math_random g5
                           in (if r6 > 4 / 10 then ''MEDIUM'' else ''LOW'', g6))
      in (\<lparr> sensor_id = mountainId * 100 + int i,
            sensor_label = anchor_label pos,
            sensor_pos = [anchor_x pos, anchor_y pos, anchor_z pos],
            temp = toFixed E (r1 * 15 + 5) 1 @ degC,
            hum = toFixed E (r2 * 30 + 60) 0 @ ''%'',
            wind = toFixed E (r3 * 30 + 10) 0 @ '' km/h'',
            moisture = toFixed E (r4 * 5 + 7) 1 @ gPerM3,
            risk = rk \<rparr>, g6))"

text \<open>\<open>positions.map(callback)\<close>, from index \<open>i\<close> on, threading the random source.\<close>

fun mapFrom ::
  "(real \<Rightarrow> string) \<Rightarrow> int \<Rightarrow> nat \<Rightarrow> anchor list \<Rightarrow> random_source \<Rightarrow> sensor list \<times> random_source" where
  "mapFrom E mountainId i [] g = ([], g)"
| "mapFrom E mountainId i (pos # rest) g =
     (let (s, g') = sensorFromPosition E mountainId pos i g;
          (ss, g'') = mapFrom E mountainId (Suc i) rest g'
      in (s # ss, g''))"

definition generateSensorsFromPositions ::
  "(real \<Rightarrow> string) \<Rightarrow> anchor list \<Rightarrow> int \<Rightarrow> random_source \<Rightarrow> sensor list \<times> random_source" where
  "generateSensorsFromPositions E positions mountainId g = mapFrom E mountainId 0 positions g"

subsection \<open>The numeric part of a formatted metric\<close>

text \<open>
  The metric fields are strings such as \<open>12.3\<degree>C\<close> or \<open>75%\<close>. Their numeric part is
  the decimal numeral they start with: a run of digits, and, when a point follows it,
  the run of digits after the point. This reader is not part of the program; the
  statements about the range of a metric are made through it.
\<close>

definition is_digit :: "char \<Rightarrow> bool" where
  "is_digit c = (c \<in> set ''0123456789'')"

definition digit_value :: "char \<Rightarrow> nat" where
  "digit_value c = length (takeWhile (\<lambda>d. d \<noteq> c) ''0123456789'')"

definition digits_value :: "string \<Rightarrow> nat" where
  "digits_value cs = foldl (\<lambda>a c. 10 * a + digit_value c) 0 cs"

definition numeric_part :: "string \<Rightarrow> real" where
  "numeric_part s =
     (let ip = takeWhile is_digit s
      in case dropWhile is_digit s of
           [] \<Rightarrow> real (digits_value ip)
         | c # r \<Rightarrow>
             if c = CHR ''.''
             then let fp = takeWhile is_digit r
                  in real (digits_value ip) + real (digits_value fp) / 10 ^ length fp
             else real (digits_value ip))"

subsection \<open>The static tables\<close>

text \<open>\<open>manualSensorPositions.m1\<close> and \<open>manualSensorPositions.m2\<close>.\<close>

definition manualSensorPositions_m1 :: "anchor list" where
  "manualSensorPositions_m1 =
     [\<lparr> anchor_x = 12519, anchor_y = 8663, anchor_z = - 2433, anchor_label = ''North Ridge'' \<rparr>,
      \<lparr> anchor_x = 1500, anchor_y = 9963, anchor_z = - 1000, anchor_label = ''South Peak'' \<rparr>,
      \<lparr> anchor_x = 0, anchor_y = 9463, anchor_z = 2000, anchor_label = ''Base Camp'' \<rparr>,
      \<lparr> anchor_x = - 9500, anchor_y = 10050, anchor_z = 0, anchor_label = ''Summit Point'' \<rparr>,
      \<lparr> anchor_x = 7000, anchor_y = 11663, anchor_z = 1500, anchor_label = ''Valley Floor'' \<rparr>,
      \<lparr> anchor_x = - 1800, anchor_y = 9663, anchor_z = - 9000, anchor_label = ''East Slope'' \<rparr>,
      \<lparr> anchor_x = 9500, anchor_y = 9063, anchor_z = - 5800, anchor_label = ''South Base'' \<rparr>]"

definition manualSensorPositions_m2 :: "anchor list" where
  "manualSensorPositions_m2 =
     [\<lparr> anchor_x = 12519, anchor_y = 5863, anchor_z = - 2433, anchor_label = ''North Ridge'' \<rparr>,
      \<lparr> anchor_x = 1500, anchor_y = 6863, anchor_z = - 1000, anchor_label = ''South Peak'' \<rparr>,
      \<lparr> anchor_x = - 4500, anchor_y = 7463, anchor_z = 2000, anchor_label = ''Base Camp'' \<rparr>,
      \<lparr> anchor_x = - 16500, anchor_y = 6550, anchor_z = 0, anchor_label = ''Summit Point'' \<rparr>]"

text \<open>An entry of \<open>mountains\<close>, and the object \<open>mountains\<close> with its two own keys.\<close>

record mountain =
  name :: string
  path :: string
  sensors :: "sensor list"

record mountains_object =
  m1 :: mountain
  m2 :: mountain

text \<open>
  \<open>mountains\<close> is built in the body of the component, so on every render; the sensors
  of both regions are generated each time, \<open>m1\<close> first.
\<close>

definition mountains :: "(real \<Rightarrow> string) \<Rightarrow> random_source \<Rightarrow> mountains_object \<times> random_source" where
  "mountains E g0 =
     (let (s1, g1) = generateSensorsFromPositions E manualSensorPositions_m1 1 g0;
          (s2, g2) = generateSensorsFromPositions E manualSensorPositions_m2 2 g1
      in (\<lparr> m1 = \<lparr> name = ''Kashmir Valley'', path = ''/mountain1.glb'', sensors = s1 \<rparr>,
            m2 = \<lparr> name = ''Mandi Ridge'', path = ''/mountain2.glb'', sensors = s2 \<rparr> \<rparr>, g2))"

text \<open>
  \<open>mountains[selectedID]\<close>. A property read never throws: it gives the own property,
  or what the key names on \<open>Object.prototype\<close> (a function, or the prototype itself
  for \<open>__proto__\<close>), or \<open>undefined\<close>.
\<close>

datatype property = Region mountain | Inherited | Undefined

definition Object_prototype_keys :: "string list" where
  "Object_prototype_keys =
     [''constructor'', ''hasOwnProperty'', ''isPrototypeOf'', ''propertyIsEnumerable'',
      ''toLocaleString'', ''toString'', ''valueOf'', ''__proto__'',
      ''__defineGetter__'', ''__defineSetter__'', ''__lookupGetter__'', ''__lookupSetter__'']"

definition current :: "mountains_object \<Rightarrow> string \<Rightarrow> property" where
  "current ms selectedID =
     (if selectedID = ''m1'' then Region (m1 ms)
      else if selectedID = ''m2'' then Region (m2 ms)
      else if selectedID \<in> set Object_prototype_keys then Inherited
      else Undefined)"

subsection \<open>The selection state and its handlers\<close>

text \<open>The two \<open>useState\<close> cells; \<open>null\<close> is \<open>None\<close>.\<close>

record state =
  selectedID :: string
  activeSensor :: "sensor option"

definition initial_state :: state where
  "initial_state = \<lparr> selectedID = ''m1'', activeSensor = None \<rparr>"

definition setSelectedID :: "string \<Rightarrow> state \<Rightarrow> state" where
  "setSelectedID v st = st\<lparr> selectedID := v \<rparr>"

definition setActiveSensor :: "sensor option \<Rightarrow> state \<Rightarrow> state" where
  "setActiveSensor v st = st\<lparr> activeSensor := v \<rparr>"

text \<open>
  The \<open>onChange\<close> handler of the region \<open>select\<close> (the spec's \<open>selectRegion\<close>); its
  argument is \<open>e.target.value\<close>.
\<close>

definition select_onChange :: "string \<Rightarrow> state \<Rightarrow> state" where
  "select_onChange target_value st = setActiveSensor None (setSelectedID target_value st)"

text \<open>
  The \<open>onClick\<close> handler of a \<open>SensorNode\<close>, \<open>() => onSelect(data)\<close>, where the
  dashboard passes \<open>onSelect={setActiveSensor}\<close> (the spec's \<open>selectSensor\<close>).
\<close>

definition SensorNode_onClick :: "sensor \<Rightarrow> state \<Rightarrow> state" where
  "SensorNode_onClick sensor_data st = setActiveSensor (Some sensor_data) st"

text \<open>The \<open>onClick\<close> handler of the panel's close button (the spec's \<open>clearSensor\<close>).\<close>

definition close_onClick :: "state \<Rightarrow> state" where
  "close_onClick st = setActiveSensor None st"

subsection \<open>One render of the dashboard\<close>

text \<open>The props of a \<open>SensorNode\<close> element and the content of the detail panel.\<close>

record marker =
  position :: "int list"
  marker_data :: sensor
  isActive :: bool

record panel =
  heading :: string
  shown_id :: int
  rows :: "(string \<times> string) list"
  badge :: string
  trend :: "real list"

record view =
  picker :: string
  detail :: "panel option"
  terrain :: string
  markers :: "marker list"

datatype js_error = TypeError

text \<open>\<open>[...Array(k)].map(...)\<close> of the trend strip: one draw per bar.\<close>

fun trendBars :: "nat \<Rightarrow> random_source \<Rightarrow> real list \<times> random_source" where
  "trendBars 0 g = ([], g)"
| "trendBars (Suc k) g =
     (let (r, g') = Math_random g;
          (hs, g'') = trendBars k g'
      in ((r * 60 + 30) # hs, g''))"

definition SensorNode :: "state \<Rightarrow> sensor \<Rightarrow> marker" where
  "SensorNode st s =
     \<lparr> position = sensor_pos s,
       marker_data = s,
       isActive = (case activeSensor st of None \<Rightarrow> False | Some a \<Rightarrow> sensor_id a = sensor_id s) \<rparr>"

text \<open>
  The body of \<open>MeghaGaahDashboard\<close>. The panel is built before the viewport, so its
  draws come first; \<open>current.path\<close> throws a \<open>TypeError\<close> when \<open>current\<close> is
  \<open>undefined\<close>, and \<open>current.sensors.map\<close> throws one when \<open>current\<close> is a value
  inherited from the prototype, which has no \<open>sensors\<close>.
\<close>

definition MeghaGaahDashboard ::
  "(real \<Rightarrow> string) \<Rightarrow> state \<Rightarrow> random_source \<Rightarrow> js_error + view \<times> random_source" where
  "MeghaGaahDashboard E st g0 =
     (let (ms, g1) = mountains E g0;
          cur = current ms (selectedID st);
          (pnl, g2) =
            (case activeSensor st of
               None \<Rightarrow> (None, g1)
             | Some a \<Rightarrow>
                 let (hs, g') = trendBars 12 g1
                 in (Some \<lparr> heading = sensor_label a,
                            shown_id = sensor_id a,
                            rows = [(''Temperature'', temp a), (''Humidity'', hum a),
                                    (''Air Moisture'', moisture a), (''Wind Speed'', wind a)],
                            badge = risk a,
                            trend = hs \<rparr>, g'))
      in case cur of
           Undefined \<Rightarrow> Inl TypeError
         | Inherited \<Rightarrow> Inl TypeError
         | Region c \<Rightarrow>
             Inr (\<lparr> picker = selectedID st,
                    detail = pnl,
                    terrain = path c,
                    markers = map (SensorNode st) (sensors c) \<rparr>, g2))"

subsection \<open>Events\<close>

text \<open>
  What a user can do with a rendered view: choose an option of the region picker,
  click the \<open>i\<close>-th marker, or press the close button of the panel when it is shown.
  Each handler runs on the state the view was rendered from, and the component renders
  again with the next draws. (React may skip the render when a handler leaves the state
  as it was, and a browser fires no change event for the option already chosen; the
  model renders and allows the event all the same, which only adds configurations.)
\<close>

datatype event = Pick string | Click nat | Close

definition picker_options :: "string list" where
  "picker_options = [''m1'', ''m2'']"

fun enabled :: "view \<Rightarrow> event \<Rightarrow> bool" where
  "enabled v (Pick rid) = (rid \<in> set picker_options)"
| "enabled v (Click i) = (i < length (markers v))"
| "enabled v Close = (detail v \<noteq> None)"

fun handle :: "view \<Rightarrow> event \<Rightarrow> state \<Rightarrow> state" where
  "handle v (Pick rid) st = select_onChange rid st"
| "handle v (Click i) st =
     (if i < length (markers v) then SensorNode_onClick (marker_data (markers v ! i)) st else st)"
| "handle v Close st = close_onClick st"

type_synonym config = "state \<times> view \<times> random_source"

definition mount :: "(real \<Rightarrow> string) \<Rightarrow> random_source \<Rightarrow> js_error + config" where
  "mount E g =
     (case MeghaGaahDashboard E initial_state g of
        Inl e \<Rightarrow> Inl e
      | Inr (v, g') \<Rightarrow> Inr (initial_state, v, g'))"

definition step :: "(real \<Rightarrow> string) \<Rightarrow> event \<Rightarrow> config \<Rightarrow> js_error + config" where
  "step E ev c =
     (case c of (st, v, g) \<Rightarrow>
        let st' = handle v ev st
        in case MeghaGaahDashboard E st' g of
             Inl e \<Rightarrow> Inl e
           | Inr (v', g') \<Rightarrow> Inr (st', v', g'))"

definition config_state :: "config \<Rightarrow> state" where
  "config_state c = fst c"

definition config_view :: "config \<Rightarrow> view" where
  "config_view c = fst (snd c)"

inductive reachable :: "(real \<Rightarrow> string) \<Rightarrow> config \<Rightarrow> bool" for E where
  mounted: "mount E g = Inr c \<Longrightarrow> reachable E c"
| stepped: "reachable E (st, v, g) \<Longrightarrow> enabled v ev \<Longrightarrow> step E ev (st, v, g) = Inr c' \<Longrightarrow> reachable E c'"

subsection \<open>The camera logger\<close>









subsection \<open>Statements about configurations\<close>

text \<open>
  The sensor list of a region as one render with source \<open>g\<close> builds it (empty for a
  key that names no region), and the part of a sensor that comes from its anchor.
\<close>

definition region_sensors :: "(real \<Rightarrow> string) \<Rightarrow> random_source \<Rightarrow> string \<Rightarrow> sensor list" where
  "region_sensors E g rid =
     (case current (fst (mountains E g)) rid of Region c \<Rightarrow> sensors c | Inherited \<Rightarrow> [] | Undefined \<Rightarrow> [])"

definition anchored :: "sensor \<Rightarrow> int \<times> string \<times> int list" where
  "anchored s = (sensor_id s, sensor_label s, sensor_pos s)"

text \<open>
  Two readings of ``the active sensor belongs to the sensor list of the selected
  region'', both against the list of the latest render: the record itself is in the
  list, or the list has a sensor of the same anchor (same id, label and position).
\<close>

definition active_in_list :: "config \<Rightarrow> bool" where
  "active_in_list c =
     (case c of (st, v, g) \<Rightarrow>
        (case activeSensor st of
           None \<Rightarrow> True
         | Some a \<Rightarrow> a \<in> set (map marker_data (markers v))))"

definition active_anchor_in_list :: "config \<Rightarrow> bool" where
  "active_anchor_in_list c =
     (case c of (st, v, g) \<Rightarrow>
        (case activeSensor st of
           None \<Rightarrow> True
         | Some a \<Rightarrow> anchored a \<in> set (map (anchored \<circ> marker_data) (markers v))))"

subsection \<open>Sample inputs\<close>

text \<open>
  Concrete inputs for the examples below: a stand-in for the exponent notation (never
  reached by the values formatted here), a random source whose first draw is \<open>0\<close> and
  whose later draws are all \<open>1/2\<close>, and one whose draws are all \<open>0.999\<close>.
\<close>

definition no_exponent :: "real \<Rightarrow> string" where
  "no_exponent x = []"

definition late_half :: random_source where
  "late_half n = (if n = 0 then 0 else 1 / 2)"

definition near_one :: random_source where
  "near_one n = 999 / 1000"


text \<open>A sensor record that no render produces (no region has an id 999).\<close>

definition stray_sensor :: sensor where
  "stray_sensor =
     \<lparr> sensor_id = 999, sensor_label = ''Nowhere'', sensor_pos = [0, 0, 0],
       temp = ''10.0'' @ degC, hum = ''70%'', wind = ''20 km/h'',
       moisture = ''8.0'' @ gPerM3, risk = ''LOW'' \<rparr>"

section \<open>The sensor synthesizer\<close>

subsection \<open>Structure of the generated list\<close>

lemma mapFrom_length: "length (fst (mapFrom E m i ps g)) = length ps"
  by (induction ps arbitrary: i g) (simp_all add: case_prod_beta)


lemma sensorFromPosition_source:
  "snd (sensorFromPosition E m pos i g) = (\<lambda>n. g (n + (if g 4 > 7/10 then 5 else 6)))"
  by (simp add: sensorFromPosition_def Math_random_def case_prod_beta eval_nat_numeral)

lemma sensorFromPosition_fields:
  "sensor_id (fst (sensorFromPosition E m pos i g)) = m * 100 + int i"
  "sensor_label (fst (sensorFromPosition E m pos i g)) = anchor_label pos"
  "sensor_pos (fst (sensorFromPosition E m pos i g)) = [anchor_x pos, anchor_y pos, anchor_z pos]"
  "temp (fst (sensorFromPosition E m pos i g)) = toFixed E (g 0 * 15 + 5) 1 @ degC"
  "hum (fst (sensorFromPosition E m pos i g)) = toFixed E (g 1 * 30 + 60) 0 @ ''%''"
  "wind (fst (sensorFromPosition E m pos i g)) = toFixed E (g 2 * 30 + 10) 0 @ '' km/h''"
  "moisture (fst (sensorFromPosition E m pos i g)) = toFixed E (g 3 * 5 + 7) 1 @ gPerM3"
  by (simp_all add: sensorFromPosition_def Math_random_def case_prod_beta eval_nat_numeral)

lemma mapFrom_nth:
  "j < length ps \<Longrightarrow>
   \<exists>k. 5 * j \<le> k \<and> k \<le> 6 * j \<and>
       fst (mapFrom E m i ps g) ! j = fst (sensorFromPosition E m (ps ! j) (i + j) (\<lambda>n. g (n + k)))"
proof (induction ps arbitrary: i j g)
  case Nil
  then show ?case by simp
next
  case (Cons pos rest)
  show ?case
  proof (cases j)
    case 0
    then show ?thesis by (simp add: case_prod_beta)
  next
    case (Suc j')
    let ?c = "if g 4 > 7/10 then 5 else (6::nat)"
    let ?g' = "\<lambda>n. g (n + ?c)"
    from Cons.prems Suc have "j' < length rest" by simp
    from Cons.IH [OF this, of "Suc i" ?g']
    obtain k where k: "5 * j' \<le> k" "k \<le> 6 * j'"
      "fst (mapFrom E m (Suc i) rest ?g') ! j' =
       fst (sensorFromPosition E m (rest ! j') (Suc i + j') (\<lambda>n. ?g' (n + k)))"
      by blast
    have shift: "(\<lambda>n. ?g' (n + k)) = (\<lambda>n. g (n + (k + ?c)))"
      by (simp add: add.assoc)
    have "fst (mapFrom E m i (pos # rest) g) ! j =
          fst (mapFrom E m (Suc i) rest ?g') ! j'"
      using Suc by (simp add: case_prod_beta sensorFromPosition_source)
    with k shift Suc
    have "fst (mapFrom E m i (pos # rest) g) ! j =
          fst (sensorFromPosition E m ((pos # rest) ! j) (i + j) (\<lambda>n. g (n + (k + ?c))))"
      by simp
    moreover have "5 * j \<le> k + ?c" "k + ?c \<le> 6 * j"
      using k Suc by simp_all
    ultimately show ?thesis by blast
  qed
qed


subsection \<open>Reading back what \<open>toFixed\<close> prints\<close>

lemma digit_props: "d < 10 \<Longrightarrow> is_digit (digit d) \<and> digit_value (digit d) = d"
proof -
  assume "d < 10"
  then have "d \<in> {0, 1, 2, 3, 4, 5, 6, 7, 8, 9}" by auto
  then show ?thesis
    by (auto simp: is_digit_def digit_value_def digit_def)
qed

lemma decimal_digits: "list_all is_digit (decimal n)"
proof (induction n rule: decimal.induct)
  case (1 n)
  show ?case
  proof (cases "n < 10")
    case True
    then show ?thesis by (simp add: decimal.simps [of n] digit_props)
  next
    case False
    with 1 show ?thesis by (simp add: decimal.simps [of n] digit_props)
  qed
qed

lemma digits_value_snoc: "digits_value (cs @ [c]) = 10 * digits_value cs + digit_value c"
  by (simp add: digits_value_def)

lemma digits_value_decimal: "digits_value (decimal n) = n"
proof (induction n rule: decimal.induct)
  case (1 n)
  show ?case
  proof (cases "n < 10")
    case True
    then show ?thesis by (simp add: decimal.simps [of n] digit_props digits_value_def)
  next
    case False
    with 1 show ?thesis
      by (simp add: decimal.simps [of n] digits_value_snoc digit_props)
  qed
qed

lemma digits_value_append:
  "digits_value (xs @ ys) = digits_value xs * 10 ^ length ys + digits_value ys"
proof (induction ys rule: rev_induct)
  case Nil
  then show ?case by (simp add: digits_value_def)
next
  case (snoc c ys)
  have "digits_value (xs @ ys @ [c]) = 10 * digits_value (xs @ ys) + digit_value c"
    using digits_value_snoc [of "xs @ ys" c] by simp
  with snoc show ?case by (simp add: digits_value_snoc algebra_simps)
qed

lemma digits_value_zeros: "digits_value (replicate k (CHR ''0'')) = 0"
proof (induction k)
  case 0
  then show ?case by (simp add: digits_value_def)
next
  case (Suc k)
  have "digits_value ([CHR ''0''] @ replicate k (CHR ''0'')) = 0"
    unfolding digits_value_append using Suc by (simp add: digits_value_def digit_value_def)
  then show ?case by simp
qed

lemma decimal_0: "decimal 0 = ''0''"
  by (simp add: decimal.simps digit_def)

lemma takeWhile_digits:
  assumes "list_all is_digit a" and "case u of [] \<Rightarrow> True | c # _ \<Rightarrow> \<not> is_digit c"
  shows "takeWhile is_digit (a @ u) = a" and "dropWhile is_digit (a @ u) = u"
proof -
  from assms(2) have "takeWhile is_digit u = []" "dropWhile is_digit u = u"
    by (cases u; simp)+
  with assms(1) show "takeWhile is_digit (a @ u) = a" "dropWhile is_digit (a @ u) = u"
    by (simp_all add: list_all_iff takeWhile_append2 dropWhile_append2)
qed

lemma point_not_digit: "\<not> is_digit (CHR ''.'')"
  by (simp add: is_digit_def)

lemma numeric_part_point:
  assumes "list_all is_digit a" and "list_all is_digit b"
    and "case u of [] \<Rightarrow> True | c # _ \<Rightarrow> \<not> is_digit c"
  shows "numeric_part (a @ ''.'' @ b @ u) = real (digits_value a) + real (digits_value b) / 10 ^ length b"
proof -
  have "takeWhile is_digit (a @ (CHR ''.'' # b @ u)) = a"
    and "dropWhile is_digit (a @ (CHR ''.'' # b @ u)) = CHR ''.'' # b @ u"
    using takeWhile_digits [OF assms(1), of "CHR ''.'' # b @ u"] point_not_digit by simp_all
  moreover have "takeWhile is_digit (b @ u) = b"
    using takeWhile_digits(1) [OF assms(2,3)] .
  ultimately show ?thesis
    by (simp add: numeric_part_def)
qed

lemma numeric_part_int:
  assumes "list_all is_digit a"
    and "case u of [] \<Rightarrow> True | c # _ \<Rightarrow> \<not> is_digit c \<and> c \<noteq> CHR ''.''"
  shows "numeric_part (a @ u) = real (digits_value a)"
proof -
  from assms(2) have u: "case u of [] \<Rightarrow> True | c # _ \<Rightarrow> \<not> is_digit c"
    by (cases u) simp_all
  have "takeWhile is_digit (a @ u) = a" "dropWhile is_digit (a @ u) = u"
    using takeWhile_digits [OF assms(1) u] .
  then have "numeric_part (a @ u) =
      (case u of [] \<Rightarrow> real (digits_value a)
       | c # r \<Rightarrow> if c = CHR ''.''
           then real (digits_value a) + real (digits_value (takeWhile is_digit r)) / 10 ^ length (takeWhile is_digit r)
           else real (digits_value a))"
    by (simp only: numeric_part_def Let_def)
  with assms(2) show ?thesis
    by (cases u) simp_all
qed


lemma toFixed_numeric_part:
  assumes x: "0 \<le> x" "x < 10 ^ 21"
    and u: "case u of [] \<Rightarrow> True | c # _ \<Rightarrow> \<not> is_digit c \<and> c \<noteq> CHR ''.''"
  shows "numeric_part (toFixed E x f @ u) = real (nat \<lfloor>x * 10 ^ f + 1 / 2\<rfloor>) / 10 ^ f"
proof -
  define n where "n = nat \<lfloor>x * 10 ^ f + 1 / 2\<rfloor>"
  have m0: "(if n = 0 then ''0'' else decimal n) = decimal n"
    by (simp add: decimal_0)
  from u have u': "case u of [] \<Rightarrow> True | c # _ \<Rightarrow> \<not> is_digit c"
    by (cases u) simp_all
  show ?thesis
  proof (cases "f = 0")
    case True
    with x have "toFixed E x f = decimal n"
      by (simp add: toFixed_def Let_def n_def decimal_0)
    with True show ?thesis
      using numeric_part_int [OF decimal_digits u, of n]
      by (simp add: digits_value_decimal n_def)
  next
    case False
    define k where "k = length (decimal n)"
    define mp where "mp = (if k \<le> f then replicate (f + 1 - k) (CHR ''0'') @ decimal n else decimal n)"
    define k' where "k' = (if k \<le> f then f + 1 else k)"
    have len: "length mp = k'" and gt: "f < k'"
      by (auto simp: mp_def k'_def k_def)
    have digs: "list_all is_digit mp"
      using decimal_digits [of n] by (simp add: mp_def is_digit_def list_all_iff)
    have val: "digits_value mp = n"
      by (simp add: mp_def digits_value_append digits_value_zeros digits_value_decimal)
    from x False have tf: "toFixed E x f = take (k' - f) mp @ ''.'' @ drop (k' - f) mp"
      by (simp add: toFixed_def Let_def n_def [symmetric] m0 k_def [symmetric] mp_def k'_def)
    have a: "list_all is_digit (take (k' - f) mp)" and b: "list_all is_digit (drop (k' - f) mp)"
      using digs by (auto simp: list_all_iff dest: in_set_takeD in_set_dropD)
    have lb: "length (drop (k' - f) mp) = f"
      using len gt by simp
    have "digits_value (take (k' - f) mp @ drop (k' - f) mp) = n"
      using val by simp
    then have split: "digits_value (take (k' - f) mp) * 10 ^ f + digits_value (drop (k' - f) mp) = n"
      unfolding digits_value_append lb .
    have "numeric_part (toFixed E x f @ u) =
          real (digits_value (take (k' - f) mp)) + real (digits_value (drop (k' - f) mp)) / 10 ^ f"
      using numeric_part_point [OF a b u'] unfolding lb by (simp only: tf append_assoc)
    also have "\<dots> = real (digits_value (take (k' - f) mp) * 10 ^ f + digits_value (drop (k' - f) mp)) / 10 ^ f"
      by (simp add: field_simps)
    finally show ?thesis
      by (simp add: split n_def)
  qed
qed


subsection \<open>The fields copied from the anchors\<close>

lemma mapFrom_ids:
  "map sensor_id (fst (mapFrom E m i ps g)) = map (\<lambda>k. m * 100 + int k) [i..<i + length ps]"
proof (induction ps arbitrary: i g)
  case Nil
  then show ?case by simp
next
  case (Cons pos rest)
  have "[i..<Suc (i + length rest)] = i # [Suc i..<Suc (i + length rest)]"
    by (rule upt_conv_Cons) simp
  then have "[i..<i + length (pos # rest)] = i # [Suc i..<Suc i + length rest]"
    by simp
  with Cons [of "Suc i"] show ?case
    by (simp add: case_prod_beta sensorFromPosition_fields)
qed

lemma mapFrom_labels:
  "map sensor_label (fst (mapFrom E m i ps g)) = map anchor_label ps"
  by (induction ps arbitrary: i g) (simp_all add: case_prod_beta sensorFromPosition_fields)

lemma mapFrom_positions:
  "map sensor_pos (fst (mapFrom E m i ps g)) = map (\<lambda>p. [anchor_x p, anchor_y p, anchor_z p]) ps"
  by (induction ps arbitrary: i g) (simp_all add: case_prod_beta sensorFromPosition_fields)


subsection \<open>Length, order and ids\<close>



subsection \<open>Risk\<close>

lemma generated_sensor:
  assumes "s \<in> set (fst (generateSensorsFromPositions E positions mountainId g))"
  obtains j k where "j < length positions"
    and "s = fst (sensorFromPosition E mountainId (positions ! j) j (\<lambda>n. g (n + k)))"
proof -
  let ?ss = "fst (mapFrom E mountainId 0 positions g)"
  from assms obtain j where j: "j < length ?ss" "s = ?ss ! j"
    unfolding generateSensorsFromPositions_def in_set_conv_nth by blast
  then have jl: "j < length positions"
    by (simp add: mapFrom_length)
  from mapFrom_nth [OF jl, of E mountainId 0 g] j(2)
  obtain k where "s = fst (sensorFromPosition E mountainId (positions ! j) j (\<lambda>n. g (n + k)))"
    by auto
  with jl show thesis by (rule that)
qed




subsection \<open>Metric ranges\<close>

lemma round_half_up_range:
  fixes y :: real
  assumes "real_of_int lo \<le> y" and "y < real_of_int hi"
  shows "lo \<le> \<lfloor>y + 1 / 2\<rfloor>" and "\<lfloor>y + 1 / 2\<rfloor> \<le> hi"
proof -
  from assms(1) have "real_of_int lo \<le> y + 1 / 2" by simp
  then show "lo \<le> \<lfloor>y + 1 / 2\<rfloor>" by (simp only: le_floor_iff)
  from assms(2) have "y + 1 / 2 < real_of_int (hi + 1)" by simp
  then have "\<lfloor>y + 1 / 2\<rfloor> < hi + 1" by (simp only: floor_less_iff)
  then show "\<lfloor>y + 1 / 2\<rfloor> \<le> hi" by simp
qed

lemma formatted_range:
  fixes x :: real
  assumes x: "0 \<le> x" "x < 10 ^ 21"
    and u: "case u of [] \<Rightarrow> True | c # _ \<Rightarrow> \<not> is_digit c \<and> c \<noteq> CHR ''.''"
    and lo: "real lo \<le> x * 10 ^ f" and hi: "x * 10 ^ f < real hi"
  shows "real lo / 10 ^ f \<le> numeric_part (toFixed E x f @ u)"
    and "numeric_part (toFixed E x f @ u) \<le> real hi / 10 ^ f"
proof -
  let ?n = "\<lfloor>x * 10 ^ f + 1 / 2\<rfloor>"
  from lo hi have "int lo \<le> ?n" "?n \<le> int hi"
    using round_half_up_range [of "int lo" "x * 10 ^ f" "int hi"] by simp_all
  then have "lo \<le> nat ?n" "nat ?n \<le> hi" by linarith+
  then have "real lo \<le> real (nat ?n)" "real (nat ?n) \<le> real hi"
    by (simp_all only: of_nat_le_iff)
  then show "real lo / 10 ^ f \<le> numeric_part (toFixed E x f @ u)"
    and "numeric_part (toFixed E x f @ u) \<le> real hi / 10 ^ f"
    unfolding toFixed_numeric_part [OF x u] by (simp_all add: divide_right_mono)
qed

lemma unit_suffixes:
  "case degC of [] \<Rightarrow> True | c # _ \<Rightarrow> \<not> is_digit c \<and> c \<noteq> CHR ''.''"
  "case ''%'' of [] \<Rightarrow> True | c # _ \<Rightarrow> \<not> is_digit c \<and> c \<noteq> CHR ''.''"
  "case '' km/h'' of [] \<Rightarrow> True | c # _ \<Rightarrow> \<not> is_digit c \<and> c \<noteq> CHR ''.''"
  "case gPerM3 of [] \<Rightarrow> True | c # _ \<Rightarrow> \<not> is_digit c \<and> c \<noteq> CHR ''.''"
  by (simp_all add: degC_def gPerM3_def is_digit_def)

lemma temp_range:
  assumes "0 \<le> r" "r < 1"
  shows "5 \<le> numeric_part (toFixed E (r * 15 + 5) 1 @ degC)"
    and "numeric_part (toFixed E (r * 15 + 5) 1 @ degC) \<le> 20"
  using formatted_range [of "r * 15 + 5" degC 50 1 200 E, OF _ _ unit_suffixes(1)] assms
  by simp_all

lemma hum_range:
  assumes "0 \<le> r" "r < 1"
  shows "60 \<le> numeric_part (toFixed E (r * 30 + 60) 0 @ ''%'')"
    and "numeric_part (toFixed E (r * 30 + 60) 0 @ ''%'') \<le> 90"
  using formatted_range [of "r * 30 + 60" "''%''" 60 0 90 E, OF _ _ unit_suffixes(2)] assms
  by simp_all

lemma wind_range:
  assumes "0 \<le> r" "r < 1"
  shows "10 \<le> numeric_part (toFixed E (r * 30 + 10) 0 @ '' km/h'')"
    and "numeric_part (toFixed E (r * 30 + 10) 0 @ '' km/h'') \<le> 40"
  using formatted_range [of "r * 30 + 10" "'' km/h''" 10 0 40 E, OF _ _ unit_suffixes(3)] assms
  by simp_all

lemma moisture_range:
  assumes "0 \<le> r" "r < 1"
  shows "7 \<le> numeric_part (toFixed E (r * 5 + 7) 1 @ gPerM3)"
    and "numeric_part (toFixed E (r * 5 + 7) 1 @ gPerM3) \<le> 12"
  using formatted_range [of "r * 5 + 7" gPerM3 70 1 120 E, OF _ _ unit_suffixes(4)] assms
  by simp_all

text \<open>
  Claim C5, as stated, asks for the numeric part of each metric to stay below the upper
  end of its range. Rounding breaks that: a temperature draw of \<open>0.999\<close> gives
  \<open>19.985\<close>, which \<open>toFixed(1)\<close> prints as \<open>20.0\<close>.
\<close>

theorem metric_ranges_counterexample:
  "unit_draws near_one \<and>
   temp (hd (fst (generateSensorsFromPositions no_exponent manualSensorPositions_m1 1 near_one))) =
     ''20.0'' @ degC \<and>
   \<not> numeric_part (temp (hd (fst (generateSensorsFromPositions no_exponent manualSensorPositions_m1 1 near_one)))) < 20"
proof -
  have u: "unit_draws near_one"
    by (simp add: unit_draws_def near_one_def)
  have t: "temp (hd (fst (generateSensorsFromPositions no_exponent manualSensorPositions_m1 1 near_one))) =
     toFixed no_exponent (near_one 0 * 15 + 5) 1 @ degC"
    by (simp add: generateSensorsFromPositions_def manualSensorPositions_m1_def case_prod_beta
        sensorFromPosition_fields)
  have f: "toFixed no_exponent (near_one 0 * 15 + 5) 1 = ''20.0''"
    unfolding near_one_def by code_simp
  have n: "numeric_part (''20.0'' @ degC) = 20"
    unfolding degC_def by code_simp
  from u t f n show ?thesis by simp
qed

text \<open>
  Claim C5, amended. For draws in \<open>[0, 1)\<close>, every metric of every generated sensor is
  the \<open>toFixed\<close> rendering (one decimal for temperature and air moisture, none for
  humidity and wind speed) of a value in its closed-open range, followed by its unit;
  the numeric part of the rendering lies in the closed range: temperature in
  \<open>[5, 20]\<close>, humidity in \<open>[60, 90]\<close>, wind speed in \<open>[10, 40]\<close>, air moisture in
  \<open>[7, 12]\<close>.
\<close>

theorem metric_ranges:
  assumes "unit_draws g"
  shows "\<forall>s \<in> set (fst (generateSensorsFromPositions E positions mountainId g)).
     \<exists>t h w a.
       temp s = toFixed E t 1 @ degC \<and> 5 \<le> t \<and> t < 20 \<and>
       hum s = toFixed E h 0 @ ''%'' \<and> 60 \<le> h \<and> h < 90 \<and>
       wind s = toFixed E w 0 @ '' km/h'' \<and> 10 \<le> w \<and> w < 40 \<and>
       moisture s = toFixed E a 1 @ gPerM3 \<and> 7 \<le> a \<and> a < 12 \<and>
       5 \<le> numeric_part (temp s) \<and> numeric_part (temp s) \<le> 20 \<and>
       60 \<le> numeric_part (hum s) \<and> numeric_part (hum s) \<le> 90 \<and>
       10 \<le> numeric_part (wind s) \<and> numeric_part (wind s) \<le> 40 \<and>
       7 \<le> numeric_part (moisture s) \<and> numeric_part (moisture s) \<le> 12"
proof
  fix s assume "s \<in> set (fst (generateSensorsFromPositions E positions mountainId g))"
  then obtain j k where "j < length positions"
    and s: "s = fst (sensorFromPosition E mountainId (positions ! j) j (\<lambda>n. g (n + k)))"
    by (rule generated_sensor)
  let ?t = "g k * 15 + 5" and ?h = "g (1 + k) * 30 + 60"
    and ?w = "g (2 + k) * 30 + 10" and ?a = "g (3 + k) * 5 + 7"
  from assms have d: "0 \<le> g k" "g k < 1" "0 \<le> g (1 + k)" "g (1 + k) < 1"
    "0 \<le> g (2 + k)" "g (2 + k) < 1" "0 \<le> g (3 + k)" "g (3 + k) < 1"
    by (simp_all add: unit_draws_def)
  have f: "temp s = toFixed E ?t 1 @ degC" "hum s = toFixed E ?h 0 @ ''%''"
    "wind s = toFixed E ?w 0 @ '' km/h''" "moisture s = toFixed E ?a 1 @ gPerM3"
    unfolding s sensorFromPosition_fields by simp_all
  have raw: "5 \<le> ?t" "?t < 20" "60 \<le> ?h" "?h < 90" "10 \<le> ?w" "?w < 40" "7 \<le> ?a" "?a < 12"
    using d by simp_all
  have shown: "5 \<le> numeric_part (temp s)" "numeric_part (temp s) \<le> 20"
    "60 \<le> numeric_part (hum s)" "numeric_part (hum s) \<le> 90"
    "10 \<le> numeric_part (wind s)" "numeric_part (wind s) \<le> 40"
    "7 \<le> numeric_part (moisture s)" "numeric_part (moisture s) \<le> 12"
    unfolding f
    using temp_range [OF d(1,2)] hum_range [OF d(3,4)] wind_range [OF d(5,6)] moisture_range [OF d(7,8)]
    by blast+
  from f raw shown
  show "\<exists>t h w a.
       temp s = toFixed E t 1 @ degC \<and> 5 \<le> t \<and> t < 20 \<and>
       hum s = toFixed E h 0 @ ''%'' \<and> 60 \<le> h \<and> h < 90 \<and>
       wind s = toFixed E w 0 @ '' km/h'' \<and> 10 \<le> w \<and> w < 40 \<and>
       moisture s = toFixed E a 1 @ gPerM3 \<and> 7 \<le> a \<and> a < 12 \<and>
       5 \<le> numeric_part (temp s) \<and> numeric_part (temp s) \<le> 20 \<and>
       60 \<le> numeric_part (hum s) \<and> numeric_part (hum s) \<le> 90 \<and>
       10 \<le> numeric_part (wind s) \<and> numeric_part (wind s) \<le> 40 \<and>
       7 \<le> numeric_part (moisture s) \<and> numeric_part (moisture s) \<le> 12"
    by (intro exI [of _ ?t] exI [of _ ?h] exI [of _ ?w] exI [of _ ?a] conjI)
qed

theorem metric_ranges_witness:
  "unit_draws late_half \<and>
   5 \<le> numeric_part (temp (hd (fst (generateSensorsFromPositions no_exponent manualSensorPositions_m2 2 late_half)))) \<and>
   numeric_part (temp (hd (fst (generateSensorsFromPositions no_exponent manualSensorPositions_m2 2 late_half)))) \<le> 20 \<and>
   60 \<le> numeric_part (hum (hd (fst (generateSensorsFromPositions no_exponent manualSensorPositions_m2 2 late_half)))) \<and>
   numeric_part (hum (hd (fst (generateSensorsFromPositions no_exponent manualSensorPositions_m2 2 late_half)))) \<le> 90"
proof -
  let ?ss = "fst (generateSensorsFromPositions no_exponent manualSensorPositions_m2 2 late_half)"
  have u: "unit_draws late_half"
    by (simp add: unit_draws_def late_half_def)
  have "hd ?ss \<in> set ?ss"
    by (rule hd_in_set)
       (simp add: generateSensorsFromPositions_def manualSensorPositions_m2_def case_prod_beta)
  with metric_ranges [OF u, of no_exponent manualSensorPositions_m2 2] u
  show ?thesis by blast
qed

section \<open>The dashboard\<close>

subsection \<open>What a render shows\<close>

lemma mountains_sensors:
  "sensors (m1 (fst (mountains E g))) = fst (generateSensorsFromPositions E manualSensorPositions_m1 1 g)"
  "sensors (m2 (fst (mountains E g))) =
     fst (generateSensorsFromPositions E manualSensorPositions_m2 2
            (snd (generateSensorsFromPositions E manualSensorPositions_m1 1 g)))"
  "path (m1 (fst (mountains E g))) = ''/mountain1.glb''"
  "path (m2 (fst (mountains E g))) = ''/mountain2.glb''"
  by (simp_all add: mountains_def case_prod_beta)

lemma region_sensors_simps:
  "region_sensors E g ''m1'' = fst (generateSensorsFromPositions E manualSensorPositions_m1 1 g)"
  "region_sensors E g ''m2'' =
     fst (generateSensorsFromPositions E manualSensorPositions_m2 2
            (snd (generateSensorsFromPositions E manualSensorPositions_m1 1 g)))"
  by (simp_all add: region_sensors_def current_def mountains_sensors)

lemma current_cases:
  "current ms ''m1'' = Region (m1 ms)"
  "current ms ''m2'' = Region (m2 ms)"
  "rid \<notin> set picker_options \<Longrightarrow> current ms rid = Inherited \<or> current ms rid = Undefined"
  by (simp_all add: current_def picker_options_def)

lemma render_unknown:
  assumes "selectedID st \<notin> set picker_options"
  shows "MeghaGaahDashboard E st g = Inl TypeError"
  using current_cases(3) [OF assms, of "fst (mountains E g)"]
  by (auto simp: MeghaGaahDashboard_def case_prod_beta Let_def)

lemma render_known:
  assumes "selectedID st \<in> set picker_options"
  shows "\<exists>v g'. MeghaGaahDashboard E st g = Inr (v, g')"
  using assms
  by (auto simp: MeghaGaahDashboard_def case_prod_beta Let_def picker_options_def current_cases)

lemma render_view:
  assumes "MeghaGaahDashboard E st g = Inr (v, g')"
  shows "picker v = selectedID st"
    and "markers v = map (SensorNode st) (region_sensors E g (selectedID st))"
    and "activeSensor st = None \<Longrightarrow> detail v = None"
    and "activeSensor st = Some a \<Longrightarrow>
           \<exists>p. detail v = Some p \<and> heading p = sensor_label a \<and> shown_id p = sensor_id a \<and>
               rows p = [(''Temperature'', temp a), (''Humidity'', hum a),
                         (''Air Moisture'', moisture a), (''Wind Speed'', wind a)] \<and>
               badge p = risk a \<and> length (trend p) = 12"
    and "selectedID st \<in> set picker_options"
proof -
  show k: "selectedID st \<in> set picker_options"
    using assms render_unknown [of st E g] by auto
  obtain c where c: "current (fst (mountains E g)) (selectedID st) = Region c"
    using k by (auto simp: picker_options_def current_cases)
  from assms c show "picker v = selectedID st"
    by (auto simp: MeghaGaahDashboard_def case_prod_beta Let_def)
  from assms c show "markers v = map (SensorNode st) (region_sensors E g (selectedID st))"
    by (auto simp: MeghaGaahDashboard_def case_prod_beta Let_def region_sensors_def)
  from assms c show "activeSensor st = None \<Longrightarrow> detail v = None"
    by (auto simp: MeghaGaahDashboard_def case_prod_beta Let_def)
  have len: "length (fst (trendBars k g)) = k" for k g
    by (induction k arbitrary: g) (simp_all add: case_prod_beta)
  from assms c len show "activeSensor st = Some a \<Longrightarrow>
           \<exists>p. detail v = Some p \<and> heading p = sensor_label a \<and> shown_id p = sensor_id a \<and>
               rows p = [(''Temperature'', temp a), (''Humidity'', hum a),
                         (''Air Moisture'', moisture a), (''Wind Speed'', wind a)] \<and>
               badge p = risk a \<and> length (trend p) = 12"
    by (auto simp: MeghaGaahDashboard_def case_prod_beta Let_def)
qed

lemma region_m1:
  "length (region_sensors E g ''m1'') = 7"
  "map sensor_id (region_sensors E g ''m1'') = [100, 101, 102, 103, 104, 105, 106]"
  "map sensor_label (region_sensors E g ''m1'') =
     [''North Ridge'', ''South Peak'', ''Base Camp'', ''Summit Point'', ''Valley Floor'',
      ''East Slope'', ''South Base'']"
  unfolding region_sensors_simps generateSensorsFromPositions_def
    mapFrom_length mapFrom_ids mapFrom_labels
  by (simp_all add: manualSensorPositions_m1_def upt_conv_Cons)

lemma region_m2:
  "length (region_sensors E g ''m2'') = 4"
  "map sensor_id (region_sensors E g ''m2'') = [200, 201, 202, 203]"
  "map sensor_label (region_sensors E g ''m2'') =
     [''North Ridge'', ''South Peak'', ''Base Camp'', ''Summit Point'']"
  unfolding region_sensors_simps generateSensorsFromPositions_def
    mapFrom_length mapFrom_ids mapFrom_labels
  by (simp_all add: manualSensorPositions_m2_def upt_conv_Cons)

lemma mount_ok:
  "\<exists>v g'. mount E g = Inr (initial_state, v, g') \<and>
     MeghaGaahDashboard E initial_state g = Inr (v, g')"
proof -
  have "selectedID initial_state \<in> set picker_options"
    by (simp add: initial_state_def picker_options_def)
  from render_known [OF this, of E g] show ?thesis
    by (auto simp: mount_def)
qed

lemma step_known:
  assumes "selectedID (handle v ev st) \<in> set picker_options"
  obtains v' g' where "step E ev (st, v, g) = Inr (handle v ev st, v', g')"
    and "MeghaGaahDashboard E (handle v ev st) g = Inr (v', g')"
proof -
  from render_known [OF assms, of E g]
  obtain v' g' where r: "MeghaGaahDashboard E (handle v ev st) g = Inr (v', g')" by blast
  then have "step E ev (st, v, g) = Inr (handle v ev st, v', g')"
    by (simp add: step_def)
  then show thesis using r by (rule that)
qed

lemma markers_ids:
  "map (sensor_id \<circ> marker_data) (map (SensorNode st) ss) = map sensor_id ss"
  "map (sensor_label \<circ> marker_data) (map (SensorNode st) ss) = map sensor_label ss"
  by (simp_all add: SensorNode_def comp_def)

subsection \<open>The active sensor and the rendered list\<close>

lemma mapFrom_anchored:
  "map anchored (fst (mapFrom E m i ps g)) = map anchored (fst (mapFrom E' m i ps g'))"
proof -
  have "map anchored xs = zip (map sensor_id xs) (zip (map sensor_label xs) (map sensor_pos xs))" for xs
    by (induction xs) (simp_all add: anchored_def)
  then show ?thesis
    by (simp only: mapFrom_ids mapFrom_labels mapFrom_positions)
qed

lemma region_sensors_anchored:
  "map anchored (region_sensors E g rid) = map anchored (region_sensors E' g' rid)"
proof (cases "rid = ''m1'' \<or> rid = ''m2''")
  case True
  then show ?thesis
    by (auto simp: region_sensors_simps generateSensorsFromPositions_def intro: mapFrom_anchored)
next
  case False
  then show ?thesis
    by (simp add: region_sensors_def current_def)
qed

lemma markers_anchored:
  "map (anchored \<circ> marker_data) (map (SensorNode st) ss) = map anchored ss"
  by (simp add: SensorNode_def comp_def)

text \<open>
  The invariant carried through the induction over reachable configurations: the
  selected id is an option of the picker, the markers show the anchors of the selected
  region, and the active sensor, when present, sits at one of these anchors.
\<close>

lemma reachable_invariant:
  assumes "reachable E c"
  shows "case c of (st, v, g) \<Rightarrow>
           selectedID st \<in> set picker_options \<and>
           map (anchored \<circ> marker_data) (markers v) = map anchored (region_sensors E g (selectedID st)) \<and>
           (case activeSensor st of
              None \<Rightarrow> True
            | Some a \<Rightarrow> anchored a \<in> set (map anchored (region_sensors E g (selectedID st))))"
  using assms
proof (induction rule: reachable.induct)
  case (mounted g c)
  then obtain v g' where r: "MeghaGaahDashboard E initial_state g = Inr (v, g')"
    and c: "c = (initial_state, v, g')"
    by (auto simp: mount_def split: sum.splits)
  from render_view(2) [OF r] have "map (anchored \<circ> marker_data) (markers v) =
      map anchored (region_sensors E g' (selectedID initial_state))"
    by (simp only: markers_anchored region_sensors_anchored [of E g _ E g'])
  with c show ?case
    by (simp add: initial_state_def picker_options_def comp_def)
next
  case (stepped st v g ev c')
  let ?st' = "handle v ev st"
  from stepped.hyps(3) obtain v' g' where r: "MeghaGaahDashboard E ?st' g = Inr (v', g')"
    and c': "c' = (?st', v', g')"
    by (auto simp: step_def Let_def split: sum.splits)
  from stepped.IH have sid: "selectedID st \<in> set picker_options"
    and ms: "map (anchored \<circ> marker_data) (markers v) = map anchored (region_sensors E g (selectedID st))"
    and act: "case activeSensor st of None \<Rightarrow> True
              | Some a \<Rightarrow> anchored a \<in> set (map anchored (region_sensors E g (selectedID st)))"
    by (simp_all add: comp_def)
  have view': "map (anchored \<circ> marker_data) (markers v') =
      map anchored (region_sensors E g' (selectedID ?st'))"
    using render_view(2) [OF r]
    by (simp only: markers_anchored region_sensors_anchored [of E g _ E g'])
  have sid': "selectedID ?st' \<in> set picker_options"
    by (rule render_view(5) [OF r])
  have act': "case activeSensor ?st' of None \<Rightarrow> True
              | Some a \<Rightarrow> anchored a \<in> set (map anchored (region_sensors E g' (selectedID ?st')))"
  proof (cases ev)
    case (Pick rid)
    then show ?thesis
      by (simp add: select_onChange_def setActiveSensor_def setSelectedID_def)
  next
    case (Click i)
    with stepped.hyps(2) have i: "i < length (markers v)" by simp
    then have "(anchored \<circ> marker_data) (markers v ! i) \<in> set (map (anchored \<circ> marker_data) (markers v))"
      by (simp only: set_map) (rule imageI, simp)
    then have "anchored (marker_data (markers v ! i)) \<in> set (map anchored (region_sensors E g' (selectedID st)))"
      by (simp only: ms region_sensors_anchored [of E g _ E g'] comp_apply)
    with Click i show ?thesis
      by (simp add: SensorNode_onClick_def setActiveSensor_def)
  next
    case Close
    then show ?thesis
      by (simp add: close_onClick_def setActiveSensor_def)
  qed
  from c' sid' view' act' show ?case by (simp add: comp_def)
qed

text \<open>
  Claim C1, as stated, fails when membership means that the record is in the list: the
  component rebuilds \<open>mountains\<close> on every render, so the render that follows a click
  on a marker draws new metric values, and the record kept in \<open>activeSensor\<close> is no
  longer in the list. Here the first draw is \<open>0\<close> and the later ones \<open>1/2\<close>: the clicked
  sensor reads \<open>5.0\<close> degrees, and after the re-render every sensor of the list reads
  \<open>12.5\<close>.
\<close>

theorem active_sensor_in_list_counterexample:
  "case mount no_exponent late_half of
     Inl e \<Rightarrow> False
   | Inr c0 \<Rightarrow>
       (case step no_exponent (Click 0) c0 of
          Inl e \<Rightarrow> False
        | Inr c1 \<Rightarrow> reachable no_exponent c1 \<and> \<not> active_in_list c1)"
proof -
  have run: "case mount no_exponent late_half of
      Inl e \<Rightarrow> False
    | Inr c0 \<Rightarrow>
        enabled (fst (snd c0)) (Click 0) \<and>
        (case step no_exponent (Click 0) c0 of
           Inl e \<Rightarrow> False
         | Inr c1 \<Rightarrow> \<not> active_in_list c1)"
    by code_simp
  then obtain c0 where c0: "mount no_exponent late_half = Inr c0"
    by (cases "mount no_exponent late_half") simp_all
  with run have en: "enabled (fst (snd c0)) (Click 0)"
    and rest: "case step no_exponent (Click 0) c0 of Inl e \<Rightarrow> False | Inr c1 \<Rightarrow> \<not> active_in_list c1"
    by simp_all
  from rest obtain c1 where c1: "step no_exponent (Click 0) c0 = Inr c1"
    by (cases "step no_exponent (Click 0) c0") simp_all
  with rest have bad: "\<not> active_in_list c1" by simp
  obtain st v g where t: "c0 = (st, v, g)" by (cases c0)
  have "reachable no_exponent (st, v, g)"
    using c0 unfolding t by (rule reachable.mounted)
  moreover from en have "enabled v (Click 0)" by (simp add: t)
  moreover from c1 have "step no_exponent (Click 0) (st, v, g) = Inr c1" by (simp add: t)
  ultimately have "reachable no_exponent c1" by (rule reachable.stepped)
  with bad c0 c1 show ?thesis by simp
qed

text \<open>
  Claim C1, amended. In every configuration reachable from the mount by picking a
  region, clicking a rendered marker and closing the panel, each followed by a
  re-render, the selected id is one of the picker's options and the active sensor,
  when present, has the id, label and position of a sensor in the list rendered for
  the selected region.
\<close>

theorem active_sensor_anchor_invariant:
  assumes "reachable E c"
  shows "active_anchor_in_list c \<and> selectedID (fst c) \<in> set picker_options"
proof -
  obtain st v g where c: "c = (st, v, g)" by (cases c)
  from reachable_invariant [OF assms] c show ?thesis
    by (simp add: active_anchor_in_list_def comp_def split: option.splits)
qed

theorem active_sensor_anchor_invariant_witness:
  "case mount no_exponent late_half of
     Inl e \<Rightarrow> False
   | Inr c0 \<Rightarrow>
       (case step no_exponent (Click 0) c0 of
          Inl e \<Rightarrow> False
        | Inr c1 \<Rightarrow> activeSensor (fst c1) \<noteq> None \<and> active_anchor_in_list c1)"
proof -
  have run: "case mount no_exponent late_half of
      Inl e \<Rightarrow> False
    | Inr c0 \<Rightarrow>
        enabled (fst (snd c0)) (Click 0) \<and>
        (case step no_exponent (Click 0) c0 of
           Inl e \<Rightarrow> False
         | Inr c1 \<Rightarrow> activeSensor (fst c1) \<noteq> None)"
    by code_simp
  then obtain c0 where c0: "mount no_exponent late_half = Inr c0"
    by (cases "mount no_exponent late_half") simp_all
  with run have en: "enabled (fst (snd c0)) (Click 0)"
    and rest: "case step no_exponent (Click 0) c0 of Inl e \<Rightarrow> False | Inr c1 \<Rightarrow> activeSensor (fst c1) \<noteq> None"
    by simp_all
  from rest obtain c1 where c1: "step no_exponent (Click 0) c0 = Inr c1"
    by (cases "step no_exponent (Click 0) c0") simp_all
  with rest have some: "activeSensor (fst c1) \<noteq> None" by simp
  obtain st v g where t: "c0 = (st, v, g)" by (cases c0)
  have "reachable no_exponent (st, v, g)"
    using c0 unfolding t by (rule reachable.mounted)
  moreover from en have "enabled v (Click 0)" by (simp add: t)
  moreover from c1 have "step no_exponent (Click 0) (st, v, g) = Inr c1" by (simp add: t)
  ultimately have "reachable no_exponent c1" by (rule reachable.stepped)
  from active_sensor_anchor_invariant [OF this] some c0 c1 show ?thesis by simp
qed

subsection \<open>The handlers\<close>

text \<open>
  Claim C6. For every state and every region id, the picker's handler sets
  \<open>selectedID\<close> to that id and \<open>activeSensor\<close> to none, whatever was active before. For
  an id of the picker, the render that follows succeeds, shows that id, no detail
  panel, and the freshly synthesized sensors of that region.
\<close>

theorem selectRegion_effect:
  "select_onChange rid st = \<lparr> selectedID = rid, activeSensor = None \<rparr> \<and>
   selectedID (select_onChange rid st) = rid \<and>
   activeSensor (select_onChange rid st) = None \<and>
   (rid \<in> set picker_options \<longrightarrow>
      (\<exists>v' g'. step E (Pick rid) (st, v, g) = Inr (select_onChange rid st, v', g') \<and>
         picker v' = rid \<and> detail v' = None \<and>
         markers v' = map (SensorNode (select_onChange rid st)) (region_sensors E g rid)))"
proof -
  let ?st' = "select_onChange rid st"
  have eq: "?st' = \<lparr> selectedID = rid, activeSensor = None \<rparr>"
    by (simp add: select_onChange_def setActiveSensor_def setSelectedID_def)
  have "\<exists>v' g'. step E (Pick rid) (st, v, g) = Inr (?st', v', g') \<and>
         picker v' = rid \<and> detail v' = None \<and>
         markers v' = map (SensorNode ?st') (region_sensors E g rid)"
    if "rid \<in> set picker_options"
  proof -
    from that eq have "selectedID ?st' \<in> set picker_options" by simp
    from render_known [OF this, of E g]
    obtain v' g' where r: "MeghaGaahDashboard E ?st' g = Inr (v', g')" by blast
    then have "step E (Pick rid) (st, v, g) = Inr (?st', v', g')"
      by (simp add: step_def)
    moreover from render_view(1,2,3) [OF r] eq
    have "picker v' = rid" "detail v' = None"
      "markers v' = map (SensorNode ?st') (region_sensors E g rid)"
      by simp_all
    ultimately show ?thesis by blast
  qed
  with eq show ?thesis by simp
qed

theorem selectRegion_effect_witness:
  "case mount no_exponent late_half of
     Inl e \<Rightarrow> False
   | Inr c0 \<Rightarrow>
       (case step no_exponent (Pick ''m2'') c0 of
          Inl e \<Rightarrow> False
        | Inr c1 \<Rightarrow> config_state c1 = \<lparr> selectedID = ''m2'', activeSensor = None \<rparr> \<and>
            detail (config_view c1) = None \<and> picker (config_view c1) = ''m2'')"
proof -
  from mount_ok obtain v g where m: "mount no_exponent late_half = Inr (initial_state, v, g)"
    by blast
  have "''m2'' \<in> set picker_options"
    by (simp add: picker_options_def)
  with selectRegion_effect [of "''m2''" initial_state no_exponent v g]
  obtain v' g' where "step no_exponent (Pick ''m2'') (initial_state, v, g) =
      Inr (\<lparr> selectedID = ''m2'', activeSensor = None \<rparr>, v', g')"
    and "picker v' = ''m2''" and "detail v' = None"
    by auto
  with m show ?thesis
    by (simp add: config_state_def config_view_def)
qed

text \<open>
  Claim C10. The close button's handler sets \<open>activeSensor\<close> to none and changes no
  other field of the selection state: \<open>selectedID\<close> stays as it was.
\<close>

theorem clearSensor_effect:
  "close_onClick st = st\<lparr> activeSensor := None \<rparr> \<and>
   activeSensor (close_onClick st) = None \<and>
   selectedID (close_onClick st) = selectedID st"
  by (simp add: close_onClick_def setActiveSensor_def)

theorem clearSensor_effect_witness:
  "close_onClick (SensorNode_onClick stray_sensor initial_state) = initial_state"
  using clearSensor_effect [of "SensorNode_onClick stray_sensor initial_state"]
  by (simp add: SensorNode_onClick_def setActiveSensor_def initial_state_def)

text \<open>
  Claim C2, as stated, makes \<open>selectSensor\<close> a no-op for a sensor outside the current
  list. The handler has no such check: given a record that is in no rendered list, it
  stores it all the same.
\<close>

theorem selectSensor_no_guard_counterexample:
  "stray_sensor \<notin> set (region_sensors no_exponent late_half (selectedID initial_state)) \<and>
   SensorNode_onClick stray_sensor initial_state \<noteq> initial_state \<and>
   activeSensor (SensorNode_onClick stray_sensor initial_state) = Some stray_sensor"
proof -
  have "sensor_id stray_sensor \<notin> set (map sensor_id (region_sensors no_exponent late_half ''m1''))"
    unfolding region_m1 by (simp add: stray_sensor_def)
  then have "stray_sensor \<notin> set (region_sensors no_exponent late_half ''m1'')"
    by auto
  then show ?thesis
    by (auto simp: initial_state_def SensorNode_onClick_def setActiveSensor_def)
qed

text \<open>
  Claim C2, amended. For every state and every sensor record, the marker's handler
  sets \<open>activeSensor\<close> to that record and leaves \<open>selectedID\<close> unchanged, whether or not
  the record belongs to the current list. A click on a marker of a rendered view
  passes a record of the list which that render built for the selected region.
\<close>

theorem selectSensor_effect:
  "SensorNode_onClick s st = st\<lparr> activeSensor := Some s \<rparr> \<and>
   activeSensor (SensorNode_onClick s st) = Some s \<and>
   selectedID (SensorNode_onClick s st) = selectedID st \<and>
   (MeghaGaahDashboard E st g = Inr (v, g') \<and> i < length (markers v) \<longrightarrow>
      marker_data (markers v ! i) \<in> set (region_sensors E g (selectedID st)) \<and>
      handle v (Click i) st = st\<lparr> activeSensor := Some (marker_data (markers v ! i)) \<rparr>)"
proof -
  have "marker_data (markers v ! i) \<in> set (region_sensors E g (selectedID st))"
    if r: "MeghaGaahDashboard E st g = Inr (v, g')" and i: "i < length (markers v)"
  proof -
    from i have "i < length (region_sensors E g (selectedID st))"
      by (simp add: render_view(2) [OF r])
    then show ?thesis
      by (simp add: render_view(2) [OF r] SensorNode_def)
  qed
  then show ?thesis
    by (simp add: SensorNode_onClick_def setActiveSensor_def)
qed

theorem selectSensor_effect_witness:
  "activeSensor (SensorNode_onClick stray_sensor initial_state) = Some stray_sensor \<and>
   (case MeghaGaahDashboard no_exponent initial_state late_half of
      Inl e \<Rightarrow> False
    | Inr (v, g') \<Rightarrow>
        2 < length (markers v) \<and>
        marker_data (markers v ! 2) \<in> set (region_sensors no_exponent late_half ''m1'') \<and>
        activeSensor (handle v (Click 2) initial_state) = Some (marker_data (markers v ! 2)))"
proof -
  have "selectedID initial_state \<in> set picker_options"
    by (simp add: initial_state_def picker_options_def)
  from render_known [OF this, of no_exponent late_half]
  obtain v g' where r: "MeghaGaahDashboard no_exponent initial_state late_half = Inr (v, g')"
    by blast
  have "length (markers v) = 7"
    unfolding render_view(2) [OF r]
    by (simp add: initial_state_def region_m1)
  then have i: "2 < length (markers v)" by simp
  from selectSensor_effect [of stray_sensor initial_state no_exponent late_half v g' 2] r i
  show ?thesis
    by (simp add: initial_state_def)
qed

subsection \<open>Looking up a region\<close>

text \<open>
  Claim C7, as stated, has the lookup fail with a not-found condition for an
  unrecognized id. The property read does not fail: for \<open>m3\<close> it gives \<open>undefined\<close>,
  and what fails is the render, with a \<open>TypeError\<close>, when it dereferences that value.
\<close>

theorem getRegion_unknown_counterexample:
  "current (fst (mountains no_exponent late_half)) ''m3'' = Undefined \<and>
   MeghaGaahDashboard no_exponent \<lparr> selectedID = ''m3'', activeSensor = None \<rparr> late_half =
     Inl TypeError"
proof -
  have "current (fst (mountains no_exponent late_half)) ''m3'' = Undefined"
    by (simp add: current_def Object_prototype_keys_def)
  moreover have "''m3'' \<notin> set picker_options"
    by (simp add: picker_options_def)
  then have "MeghaGaahDashboard no_exponent \<lparr> selectedID = ''m3'', activeSensor = None \<rparr> late_half =
     Inl TypeError"
    by (intro render_unknown) simp
  ultimately show ?thesis by simp
qed

text \<open>
  Claim C7, amended. The lookup \<open>mountains[id]\<close> gives the region for each of the two
  registered ids. For every other id it does not fail but gives \<open>undefined\<close> or a
  member inherited from the object prototype, and a render with that id selected
  throws a \<open>TypeError\<close>.
\<close>

theorem getRegion_lookup:
  "current ms ''m1'' = Region (m1 ms) \<and>
   current ms ''m2'' = Region (m2 ms) \<and>
   (rid \<noteq> ''m1'' \<and> rid \<noteq> ''m2'' \<longrightarrow>
      (current ms rid = Undefined \<or> current ms rid = Inherited) \<and>
      MeghaGaahDashboard E \<lparr> selectedID = rid, activeSensor = a \<rparr> g = Inl TypeError)"
proof -
  have "MeghaGaahDashboard E \<lparr> selectedID = rid, activeSensor = a \<rparr> g = Inl TypeError"
    if "rid \<noteq> ''m1''" "rid \<noteq> ''m2''"
    using that by (intro render_unknown) (simp add: picker_options_def)
  then show ?thesis
    by (auto simp: current_def)
qed

theorem getRegion_lookup_witness:
  "current (fst (mountains no_exponent late_half)) ''m2'' =
     Region (m2 (fst (mountains no_exponent late_half))) \<and>
   current (fst (mountains no_exponent late_half)) ''toString'' = Inherited \<and>
   MeghaGaahDashboard no_exponent \<lparr> selectedID = ''toString'', activeSensor = None \<rparr> late_half =
     Inl TypeError"
  using getRegion_lookup [of "fst (mountains no_exponent late_half)" "''toString''" no_exponent None late_half]
  by (simp add: current_def Object_prototype_keys_def)

subsection \<open>The scenario of the concrete dataset\<close>

text \<open>
  Claim C8. With the dataset of the source and any random source: the mount, where
  region \<open>m1\<close> is selected, renders 7 markers with the ids 100 to 106, and so does
  selecting \<open>m1\<close> through the picker's handler, the third marker being labelled Base
  Camp; clicking that marker makes the active sensor's label Base Camp and shows the
  detail panel with 4 metric rows; closing clears the active sensor and unmounts the
  panel; switching to \<open>m2\<close> renders 4 markers with the ids 200 to 203 and no active
  sensor. The click, the close and the switch are enabled where they happen, and
  every render succeeds.
\<close>

theorem concrete_scenario:
  "\<exists>c0 c1 c2 c3 c4.
     mount E g = Inr c0 \<and>
     selectedID (config_state c0) = ''m1'' \<and>
     length (markers (config_view c0)) = 7 \<and>
     map (sensor_id \<circ> marker_data) (markers (config_view c0)) = [100, 101, 102, 103, 104, 105, 106] \<and>
     step E (Pick ''m1'') c0 = Inr c1 \<and>
     length (markers (config_view c1)) = 7 \<and>
     map (sensor_id \<circ> marker_data) (markers (config_view c1)) = [100, 101, 102, 103, 104, 105, 106] \<and>
     set (map (sensor_id \<circ> marker_data) (markers (config_view c1))) = {100..106} \<and>
     sensor_label (marker_data (markers (config_view c1) ! 2)) = ''Base Camp'' \<and>
     enabled (config_view c1) (Click 2) \<and>
     step E (Click 2) c1 = Inr c2 \<and>
     (\<exists>a p. activeSensor (config_state c2) = Some a \<and> sensor_label a = ''Base Camp'' \<and>
            detail (config_view c2) = Some p \<and> heading p = ''Base Camp'' \<and> length (rows p) = 4) \<and>
     enabled (config_view c2) Close \<and>
     step E Close c2 = Inr c3 \<and>
     activeSensor (config_state c3) = None \<and> detail (config_view c3) = None \<and>
     enabled (config_view c3) (Pick ''m2'') \<and>
     step E (Pick ''m2'') c3 = Inr c4 \<and>
     length (markers (config_view c4)) = 4 \<and>
     map (sensor_id \<circ> marker_data) (markers (config_view c4)) = [200, 201, 202, 203] \<and>
     set (map (sensor_id \<circ> marker_data) (markers (config_view c4))) = {200..203} \<and>
     activeSensor (config_state c4) = None"
proof -
  let ?s1 = "\<lparr> selectedID = ''m1'', activeSensor = None \<rparr>"
  let ?s4 = "\<lparr> selectedID = ''m2'', activeSensor = None \<rparr>"
  have opts: "''m1'' \<in> set picker_options" "''m2'' \<in> set picker_options"
    by (simp_all add: picker_options_def)
  \<comment> \<open>mount\<close>
  from mount_ok obtain v0 g0 where m: "mount E g = Inr (initial_state, v0, g0)"
    and r0: "MeghaGaahDashboard E initial_state g = Inr (v0, g0)" by blast
  have sel0: "selectedID initial_state = ''m1''"
    by (simp add: initial_state_def)
  have mk0: "markers v0 = map (SensorNode initial_state) (region_sensors E g ''m1'')"
    using render_view(2) [OF r0] by (simp add: sel0)
  have len0: "length (markers v0) = 7"
    by (simp add: mk0 region_m1)
  have ids0: "map (sensor_id \<circ> marker_data) (markers v0) = [100, 101, 102, 103, 104, 105, 106]"
    unfolding mk0 markers_ids by (rule region_m1)
  \<comment> \<open>select region m1\<close>
  have h1: "handle v0 (Pick ''m1'') initial_state = ?s1"
    by (simp add: select_onChange_def setActiveSensor_def setSelectedID_def)
  then have "selectedID (handle v0 (Pick ''m1'') initial_state) \<in> set picker_options"
    using opts by simp
  then obtain v1 g1 where s1: "step E (Pick ''m1'') (initial_state, v0, g0) = Inr (?s1, v1, g1)"
    and r1: "MeghaGaahDashboard E ?s1 g0 = Inr (v1, g1)"
    unfolding h1 by (rule step_known [of v0 "Pick ''m1''" initial_state E g0, unfolded h1])
  have mk1: "markers v1 = map (SensorNode ?s1) (region_sensors E g0 ''m1'')"
    using render_view(2) [OF r1] by simp
  have len1: "length (markers v1) = 7"
    by (simp add: mk1 region_m1)
  have ids1: "map (sensor_id \<circ> marker_data) (markers v1) = [100, 101, 102, 103, 104, 105, 106]"
    unfolding mk1 markers_ids by (rule region_m1)
  have "{100..106} = {100, 101, 102, 103, 104, 105, (106::int)}"
    by auto
  then have set1: "set (map (sensor_id \<circ> marker_data) (markers v1)) = {100..106}"
    unfolding ids1 by simp
  have labs1: "map (sensor_label \<circ> marker_data) (markers v1) =
     [''North Ridge'', ''South Peak'', ''Base Camp'', ''Summit Point'', ''Valley Floor'',
      ''East Slope'', ''South Base'']"
    unfolding mk1 markers_ids by (rule region_m1)
  have "map (sensor_label \<circ> marker_data) (markers v1) ! 2 = ''Base Camp''"
    unfolding labs1 by simp
  then have lab1: "sensor_label (marker_data (markers v1 ! 2)) = ''Base Camp''"
    using len1 by simp
  have en1: "enabled v1 (Click 2)"
    using len1 by simp
  \<comment> \<open>click the marker labelled Base Camp\<close>
  let ?a = "marker_data (markers v1 ! 2)"
  let ?s2 = "\<lparr> selectedID = ''m1'', activeSensor = Some ?a \<rparr>"
  have h2: "handle v1 (Click 2) ?s1 = ?s2"
    using len1 by (simp add: SensorNode_onClick_def setActiveSensor_def)
  obtain v2 g2 where s2: "step E (Click 2) (?s1, v1, g1) = Inr (?s2, v2, g2)"
    and r2: "MeghaGaahDashboard E ?s2 g1 = Inr (v2, g2)"
    using opts by (auto intro: step_known [of v1 "Click 2" ?s1 E g1, unfolded h2])
  from render_view(4) [OF r2, of ?a]
  obtain p where p: "detail v2 = Some p" "heading p = sensor_label ?a" "length (rows p) = 4"
    by auto
  have en2: "enabled v2 Close"
    using p by simp
  \<comment> \<open>close the panel\<close>
  have h3: "handle v2 Close ?s2 = ?s1"
    by (simp add: close_onClick_def setActiveSensor_def)
  obtain v3 g3 where s3: "step E Close (?s2, v2, g2) = Inr (?s1, v3, g3)"
    and r3: "MeghaGaahDashboard E ?s1 g2 = Inr (v3, g3)"
    using opts by (auto intro: step_known [of v2 Close ?s2 E g2, unfolded h3])
  have d3: "detail v3 = None"
    using render_view(3) [OF r3] by simp
  have en3: "enabled v3 (Pick ''m2'')"
    using opts by simp
  \<comment> \<open>switch to region m2\<close>
  have h4: "handle v3 (Pick ''m2'') ?s1 = ?s4"
    by (simp add: select_onChange_def setActiveSensor_def setSelectedID_def)
  obtain v4 g4 where s4: "step E (Pick ''m2'') (?s1, v3, g3) = Inr (?s4, v4, g4)"
    and r4: "MeghaGaahDashboard E ?s4 g3 = Inr (v4, g4)"
    using opts by (auto intro: step_known [of v3 "Pick ''m2''" ?s1 E g3, unfolded h4])
  have mk4: "markers v4 = map (SensorNode ?s4) (region_sensors E g3 ''m2'')"
    using render_view(2) [OF r4] by simp
  have len4: "length (markers v4) = 4"
    by (simp add: mk4 region_m2)
  have ids4: "map (sensor_id \<circ> marker_data) (markers v4) = [200, 201, 202, 203]"
    unfolding mk4 markers_ids by (rule region_m2)
  have "{200..203} = {200, 201, 202, (203::int)}"
    by auto
  then have set4: "set (map (sensor_id \<circ> marker_data) (markers v4)) = {200..203}"
    unfolding ids4 by simp
  show ?thesis
    apply (rule exI [of _ "(initial_state, v0, g0)"])
    apply (rule exI [of _ "(?s1, v1, g1)"])
    apply (rule exI [of _ "(?s2, v2, g2)"])
    apply (rule exI [of _ "(?s1, v3, g3)"])
    apply (rule exI [of _ "(?s4, v4, g4)"])
    unfolding config_view_def config_state_def fst_conv snd_conv
    using m sel0 len0 ids0 s1 len1 ids1 set1 lab1 en1 s2 p en2 s3 d3 en3 s4 len4 ids4 set4
    apply (intro conjI)
    apply (simp_all only: state.simps option.simps)
    apply blast
    done
qed

theorem concrete_scenario_witness:
  "\<exists>c0 c1. mount no_exponent late_half = Inr c0 \<and>
      step no_exponent (Pick ''m1'') c0 = Inr c1 \<and>
      length (markers (config_view c1)) = 7"
  using concrete_scenario [of no_exponent late_half] by blast

section \<open>The camera logger\<close>





end
